theory Spec2Isabelle
  imports Main "HOL-Library.AList" "HOL-Library.Sublist"
begin

section \<open>Data model\<close>

text \<open>
  Instants are naive datetimes, counted in whole time units from a fixed reference
  instant; the nodes only compare them. A slot is the tuple \<^verbatim>\<open>(start, end)\<close> of two
  datetimes.
\<close>

type_synonym instant = int
type_synonym slot = "instant \<times> instant"

text \<open>The exceptions the modelled code can raise.\<close>

datatype error =
    AssertionError string
  | IndexError
  | KeyError string
  | TypeError
  | ValueError
  | AttributeError

text \<open>
  The Python values a node handles after \<^verbatim>\<open>yaml.safe_load\<close>: scalars, timestamps,
  lists and dicts (in insertion order), and the tuple of two datetimes that
  \<^verbatim>\<open>ActionDeciderNode.exec\<close> stores under \<^verbatim>\<open>chosen_slot\<close>.
\<close>

datatype pyval =
    VNone
  | VBool bool
  | VInt int
  | VStr string
  | VDatetime instant
  | VSlot instant instant
  | VList "pyval list"
  | VDict "(string \<times> pyval) list"

text \<open>Python truthiness (\<^verbatim>\<open>if x:\<close>).\<close>

fun truthy :: "pyval \<Rightarrow> bool" where
  "truthy VNone = False"
| "truthy (VBool b) = b"
| "truthy (VInt i) = (i \<noteq> 0)"
| "truthy (VStr s) = (s \<noteq> [])"
| "truthy (VDatetime t) = True"
| "truthy (VSlot s e) = True"
| "truthy (VList xs) = (xs \<noteq> [])"
| "truthy (VDict kvs) = (kvs \<noteq> [])"

text \<open>
  One unread email as \<^verbatim>\<open>check_unread_emails\<close> documents it: the sender header, the
  recipient lists (already parsed into addresses), subject, body and message identifier.
\<close>

record email =
  message_id :: string
  sender :: string
  to_addrs :: "string list"
  cc :: "string list"
  bcc :: "string list"
  subject :: string
  body :: string

text \<open>
  The \<^verbatim>\<open>request\<close> dict that \<^verbatim>\<open>AvailabilityRangeExtractorNode.post\<close> creates,
  and the entry of \<^verbatim>\<open>shared["pending_emails"]\<close>: the email dict, to which nodes add
  the keys \<^verbatim>\<open>request\<close> and \<^verbatim>\<open>draft_email\<close>.
\<close>

record request =
  status :: string
  meeting :: pyval
  available_slots :: "slot list"
  chosen_slot :: pyval

record pending =
  email_of :: email
  request_of :: "request option"
  draft_email :: "(string \<times> string) option"

record config =
  authorized_user :: string
  username :: string
  password :: string
  working_hours :: "int \<times> int"

text \<open>
  The shared store. \<^verbatim>\<open>pending_emails\<close> is a dict keyed by message identifier, kept as
  an association list in insertion order.
\<close>

record shared =
  conf :: config
  pending_emails :: "(string \<times> pending) list"

section \<open>Strings\<close>

text \<open>
  The address normalisation of the nodes,
  \<^verbatim>\<open>email.utils.getaddresses([addr])[0][1].lower().strip()\<close>. The library functions
  \<^verbatim>\<open>getaddresses\<close>, \<^verbatim>\<open>str.lower\<close> and \<^verbatim>\<open>str.strip\<close> are parameters; indexing the
  result of \<^verbatim>\<open>getaddresses\<close> with \<^verbatim>\<open>[0]\<close> raises IndexError when it is empty.
\<close>

type_synonym getaddresses = "string list \<Rightarrow> (string \<times> string) list"

record strlib =
  lib_getaddresses :: getaddresses
  lib_lower :: "string \<Rightarrow> string"
  lib_strip :: "string \<Rightarrow> string"

definition parse_addr :: "strlib \<Rightarrow> string \<Rightarrow> error + string" where
  "parse_addr lib addr =
     (case lib_getaddresses lib [addr] of
        [] \<Rightarrow> Inl IndexError
      | p # _ \<Rightarrow> Inr (lib_strip lib (lib_lower lib (snd p))))"

text \<open>
  \<^verbatim>\<open>str.lower()\<close> and \<^verbatim>\<open>str.strip()\<close> on strings of code points below 256, one
  \<open>char\<close> per code point: the capitals are A to Z and 0xC0 to 0xDE without the
  multiplication sign 0xD7, each 0x20 below its small letter; whitespace is 0x09 to
  0x0D, 0x1C to 0x20, 0x85 and 0xA0.
\<close>

definition upper_chars :: "char list" where
  "upper_chars =
     ''ABCDEFGHIJKLMNOPQRSTUVWXYZ'' @
     [CHR 0xC0, CHR 0xC1, CHR 0xC2, CHR 0xC3, CHR 0xC4, CHR 0xC5, CHR 0xC6, CHR 0xC7,
      CHR 0xC8, CHR 0xC9, CHR 0xCA, CHR 0xCB, CHR 0xCC, CHR 0xCD, CHR 0xCE, CHR 0xCF,
      CHR 0xD0, CHR 0xD1, CHR 0xD2, CHR 0xD3, CHR 0xD4, CHR 0xD5, CHR 0xD6, CHR 0xD8,
      CHR 0xD9, CHR 0xDA, CHR 0xDB, CHR 0xDC, CHR 0xDD, CHR 0xDE]"

definition lower_chars :: "char list" where
  "lower_chars =
     ''abcdefghijklmnopqrstuvwxyz'' @
     [CHR 0xE0, CHR 0xE1, CHR 0xE2, CHR 0xE3, CHR 0xE4, CHR 0xE5, CHR 0xE6, CHR 0xE7,
      CHR 0xE8, CHR 0xE9, CHR 0xEA, CHR 0xEB, CHR 0xEC, CHR 0xED, CHR 0xEE, CHR 0xEF,
      CHR 0xF0, CHR 0xF1, CHR 0xF2, CHR 0xF3, CHR 0xF4, CHR 0xF5, CHR 0xF6, CHR 0xF8,
      CHR 0xF9, CHR 0xFA, CHR 0xFB, CHR 0xFC, CHR 0xFD, CHR 0xFE]"

definition lower_char :: "char \<Rightarrow> char" where
  "lower_char c = (case map_of (zip upper_chars lower_chars) c of None \<Rightarrow> c | Some l \<Rightarrow> l)"

definition lower :: "string \<Rightarrow> string" where
  "lower s = map lower_char s"

definition is_space :: "char \<Rightarrow> bool" where
  "is_space c = (c \<in> set [CHR 0x09, CHR 0x0A, CHR 0x0B, CHR 0x0C, CHR 0x0D,
                          CHR 0x1C, CHR 0x1D, CHR 0x1E, CHR 0x1F, CHR 0x20,
                          CHR 0x85, CHR 0xA0])"

definition strip :: "string \<Rightarrow> string" where
  "strip s = rev (dropWhile is_space (rev (dropWhile is_space s)))"

section \<open>EmailFetcherNode\<close>

text \<open>
  The filter of \<^verbatim>\<open>EmailFetcherNode.exec\<close>:
  \<^verbatim>\<open>[e for e in emails if (parsed sender == authorized_email or
       authorized_email in e["cc"] or authorized_email in e["bcc"])]\<close>.
\<close>

definition involves :: "strlib \<Rightarrow> string \<Rightarrow> email \<Rightarrow> error + bool" where
  "involves lib authorized_email e =
     (case parse_addr lib (sender e) of
        Inl err \<Rightarrow> Inl err
      | Inr s \<Rightarrow> Inr (s = authorized_email \<or> authorized_email \<in> set (cc e)
                      \<or> authorized_email \<in> set (bcc e)))"

fun authorized_emails :: "strlib \<Rightarrow> string \<Rightarrow> email list \<Rightarrow> error + email list" where
  "authorized_emails g a [] = Inr []"
| "authorized_emails g a (e # es) =
     (case involves g a e of
        Inl err \<Rightarrow> Inl err
      | Inr keep \<Rightarrow>
          (case authorized_emails g a es of
             Inl err \<Rightarrow> Inl err
           | Inr r \<Rightarrow> Inr (if keep then e # r else r)))"

definition EmailFetcherNode_prep :: "shared \<Rightarrow> config" where
  "EmailFetcherNode_prep sh = conf sh"

text \<open>
  \<^verbatim>\<open>EmailFetcherNode.exec\<close>. The list \<open>emails\<close> is what the mailbox collaborator
  \<^verbatim>\<open>check_unread_emails\<close> returned in this cycle. The result is \<open>None\<close> or a
  non-empty list.
\<close>

definition EmailFetcherNode_exec ::
  "strlib \<Rightarrow> email list \<Rightarrow> config \<Rightarrow> error + email list option" where
  "EmailFetcherNode_exec g emails c =
     (if emails = [] then Inr None
      else case parse_addr g (authorized_user c) of
        Inl err \<Rightarrow> Inl err
      | Inr authorized_email \<Rightarrow>
          (case authorized_emails g authorized_email emails of
             Inl err \<Rightarrow> Inl err
           | Inr r \<Rightarrow> Inr (if r \<noteq> [] then Some r else None)))"

text \<open>
  The dict comprehension \<^verbatim>\<open>{msg["message_id"]: msg for msg in exec_res}\<close>: a later
  message with the same identifier replaces the value and keeps the key's place.
\<close>

definition store_msg :: "(string \<times> pending) list \<Rightarrow> email \<Rightarrow> (string \<times> pending) list" where
  "store_msg d msg =
     AList.update (message_id msg) \<lparr>email_of = msg, request_of = None, draft_email = None\<rparr> d"

definition new_pending :: "email list \<Rightarrow> (string \<times> pending) list" where
  "new_pending msgs = foldl store_msg [] msgs"

text \<open>
  \<^verbatim>\<open>EmailFetcherNode.post\<close>: the new store, the seconds slept by \<^verbatim>\<open>time.sleep\<close>, and
  the action returned.
\<close>

definition EmailFetcherNode_post :: "shared \<Rightarrow> email list option \<Rightarrow> shared \<times> nat \<times> string" where
  "EmailFetcherNode_post sh exec_res =
     (case exec_res of
        None \<Rightarrow> (sh, 30, ''monitor'')
      | Some [] \<Rightarrow> (sh, 30, ''monitor'')
      | Some (m # ms) \<Rightarrow> (sh\<lparr>pending_emails := new_pending (m # ms)\<rparr>, 0, ''analyze_batch''))"

section \<open>Graph wiring\<close>

text \<open>The node objects created at module level (lines 631-640 and 659).\<close>

datatype node =
    email_fetcher
  | email_analyzer
  | range_extractor
  | availability_checker
  | action_decider
  | meeting_scheduler
  | schedule_confirmation
  | time_proposal
  | no_slots
  | email_sender
  | email_analysis

text \<open>
  The transitions registered at module level, in source order: \<^verbatim>\<open>a - "x" >> b\<close> registers
  \<open>b\<close> as the destination of action \<open>x\<close> at node \<open>a\<close>; \<^verbatim>\<open>>> None\<close> is the
  explicit termination marker.
\<close>

definition wiring :: "((node \<times> string) \<times> node option) list" where
  "wiring =
     [((email_analyzer, ''extract_availability_range''), Some range_extractor),
      ((email_analyzer, ''end''), None),
      ((range_extractor, ''check_availability''), Some availability_checker),
      ((availability_checker, ''decide_next_action''), Some action_decider),
      ((action_decider, ''schedule''), Some meeting_scheduler),
      ((action_decider, ''ask_time''), Some time_proposal),
      ((meeting_scheduler, ''send_confirmation''), Some schedule_confirmation),
      ((schedule_confirmation, ''send_email''), Some email_sender),
      ((time_proposal, ''send_email''), Some email_sender),
      ((email_sender, ''end''), None),
      ((email_fetcher, ''monitor''), Some email_fetcher),
      ((email_fetcher, ''analyze_batch''), Some email_analysis),
      ((email_analysis, ''default''), Some email_fetcher)]"

text \<open>
  The transition table: \<open>None\<close> when the action has no registration at the node,
  \<open>Some None\<close> for the termination marker, \<open>Some (Some n)\<close> for a destination.
\<close>

definition successors :: "node \<Rightarrow> string \<Rightarrow> node option option" where
  "successors n a = map_of wiring (n, a)"

text \<open>
  The nodes a walk can visit: the start node \<open>email_fetcher\<close> of the main flow
  (line 667), the start node \<open>email_analyzer\<close> of the batch flow (line 659) once the
  batch flow is visited, and every registered destination of a visited node.
\<close>

inductive reachable :: "node \<Rightarrow> bool" where
  start: "reachable email_fetcher"
| batch: "reachable email_analysis \<Longrightarrow> reachable email_analyzer"
| step: "reachable n \<Longrightarrow> successors n a = Some (Some m) \<Longrightarrow> reachable m"

section \<open>Dicts and strings of the LLM nodes\<close>

text \<open>\<^verbatim>\<open>d[k]\<close> raises KeyError on a missing key; \<^verbatim>\<open>d.setdefault(k, v)\<close>.\<close>

definition getitem :: "(string \<times> pyval) list \<Rightarrow> string \<Rightarrow> error + pyval" where
  "getitem d k = (case map_of d k of None \<Rightarrow> Inl (KeyError k) | Some v \<Rightarrow> Inr v)"

definition setdefault :: "string \<Rightarrow> pyval \<Rightarrow> (string \<times> pyval) list \<Rightarrow> (string \<times> pyval) list" where
  "setdefault k v d = (case map_of d k of None \<Rightarrow> d @ [(k, v)] | Some _ \<Rightarrow> d)"

text \<open>\<^verbatim>\<open>s.split(sep)\<close> for a non-empty separator.\<close>

function split_from :: "string \<Rightarrow> string \<Rightarrow> string \<Rightarrow> string list" where
  "split_from sep cur [] = [cur]"
| "split_from sep cur (c # cs) =
     (if sep \<noteq> [] \<and> take (length sep) (c # cs) = sep
      then cur # split_from sep [] (drop (length sep) (c # cs))
      else split_from sep (cur @ [c]) cs)"
  by pat_completeness auto
termination
  by (relation "measure (\<lambda>(sep, cur, s). length s)") auto

definition str_split :: "string \<Rightarrow> string \<Rightarrow> string list" where
  "str_split s sep = split_from sep [] s"

text \<open>
  \<^verbatim>\<open>datetime.strptime(s, "%Y-%m-%d %H:%M ET")\<close> is a parameter: \<open>None\<close> stands for
  the ValueError of a string that does not match the format.
\<close>

type_synonym strptime = "string \<Rightarrow> instant option"

section \<open>AvailabilityRangeExtractorNode\<close>

text \<open>
  Python's \<^verbatim>\<open>k in v\<close> for a string \<open>k\<close>: the key test on a dict, the substring test
  on a string, membership on a list or tuple, and a TypeError on a value that is not
  iterable.
\<close>

fun py_in :: "string \<Rightarrow> pyval \<Rightarrow> error + bool" where
  "py_in k (VDict kvs) = Inr (map_of kvs k \<noteq> None)"
| "py_in k (VStr s) = Inr (sublist k s)"
| "py_in k (VList xs) = Inr (VStr k \<in> set xs)"
| "py_in k (VSlot s e) = Inr False"
| "py_in k _ = Inl TypeError"

text \<open>
  The assertions of lines 201-208 on the parsed LLM answer \<open>result\<close>, in source order;
  on success the dict and its \<^verbatim>\<open>timeframe\<close> dict. Python's \<^verbatim>\<open>bool\<close> is a subclass of
  \<^verbatim>\<open>int\<close>. A \<^verbatim>\<open>timeframe\<close> that is no dict but passes the assertions (a string or list
  that contains \<^verbatim>\<open>start\<close> and \<^verbatim>\<open>end\<close>) makes the subscript
  \<^verbatim>\<open>result["timeframe"]["start"]\<close> of line 212 raise TypeError.
\<close>

definition is_int :: "pyval \<Rightarrow> bool" where
  "is_int v = (case v of VInt _ \<Rightarrow> True | VBool _ \<Rightarrow> True | _ \<Rightarrow> False)"

definition required_fields ::
  "pyval \<Rightarrow> error + (string \<times> pyval) list \<times> (string \<times> pyval) list" where
  "required_fields result =
     (case result of
        VDict r \<Rightarrow>
          (case map_of r ''duration'' of
             None \<Rightarrow> Inl (AssertionError ''Duration is required'')
           | Some d \<Rightarrow>
               if \<not> is_int d then Inl (AssertionError ''Duration must be an integer'')
               else
                 (case map_of r ''timeframe'' of
                    None \<Rightarrow> Inl (AssertionError ''Timeframe is required'')
                  | Some t \<Rightarrow>
                      (case py_in ''start'' t of
                         Inl err \<Rightarrow> Inl err
                       | Inr has_start \<Rightarrow>
                           if \<not> has_start then Inl (AssertionError ''Start time is required'')
                           else
                             (case py_in ''end'' t of
                                Inl err \<Rightarrow> Inl err
                              | Inr has_end \<Rightarrow>
                                  if \<not> has_end
                                    then Inl (AssertionError ''End time is required'')
                                  else if map_of r ''description'' = None
                                    then Inl (AssertionError ''Description is required'')
                                  else if map_of r ''reason'' = None
                                    then Inl (AssertionError
                                                ''Reason for timeframe selection is required'')
                                  else
                                    (case t of
                                       VDict tf \<Rightarrow> Inr (r, tf)
                                     | _ \<Rightarrow> Inl TypeError)))))
      | _ \<Rightarrow> Inl (AssertionError ''Result must be a dictionary''))"

text \<open>
  Lines 211-216: \<^verbatim>\<open>strptime\<close> on a value that is no string raises TypeError, on a
  string that does not match the format ValueError (logged and raised again).
\<close>

definition to_datetime :: "strptime \<Rightarrow> pyval option \<Rightarrow> error + instant" where
  "to_datetime strptime v =
     (case v of
        Some (VStr s) \<Rightarrow> (case strptime s of None \<Rightarrow> Inl ValueError | Some t \<Rightarrow> Inr t)
      | _ \<Rightarrow> Inl TypeError)"

text \<open>
  Lines 226-227, \<^verbatim>\<open>if email_addr not in attendees: attendees.append(email_addr)\<close>, for
  every value the LLM can have put under \<^verbatim>\<open>attendees\<close>: \<^verbatim>\<open>in\<close> is membership on a
  list, the substring test on a string, the key test on a dict, and a TypeError on a
  scalar; only a list has \<^verbatim>\<open>append\<close>.
\<close>

fun add_attendee :: "pyval \<Rightarrow> string \<Rightarrow> error + pyval" where
  "add_attendee (VList xs) a = Inr (if VStr a \<in> set xs then VList xs else VList (xs @ [VStr a]))"
| "add_attendee (VStr s) a = (if sublist a s then Inr (VStr s) else Inl AttributeError)"
| "add_attendee (VDict kvs) a =
     (if map_of kvs a \<noteq> None then Inr (VDict kvs) else Inl AttributeError)"
| "add_attendee (VSlot s e) a = Inl AttributeError"
| "add_attendee _ a = Inl TypeError"

text \<open>The loop \<^verbatim>\<open>for addr in [sender] + cc_list + bcc_list\<close> of lines 224-227.\<close>

fun add_participants :: "strlib \<Rightarrow> pyval \<Rightarrow> string list \<Rightarrow> error + pyval" where
  "add_participants g att [] = Inr att"
| "add_participants g att (addr # rest) =
     (case parse_addr g addr of
        Inl err \<Rightarrow> Inl err
      | Inr email_addr \<Rightarrow>
          (case add_attendee att email_addr of
             Inl err \<Rightarrow> Inl err
           | Inr att' \<Rightarrow> add_participants g att' rest))"

text \<open>
  Line 235 logs \<^verbatim>\<open>', '.join(result['attendees'])\<close>: joining a list raises TypeError
  unless every element is a string; a string joins its characters and a dict its keys.
\<close>

fun joinable :: "pyval \<Rightarrow> bool" where
  "joinable (VList xs) = list_all (\<lambda>x. case x of VStr _ \<Rightarrow> True | _ \<Rightarrow> False) xs"
| "joinable (VStr s) = True"
| "joinable (VDict kvs) = True"
| "joinable _ = False"

text \<open>
  \<^verbatim>\<open>AvailabilityRangeExtractorNode.exec\<close> from line 200 on. \<open>today\<close> is the value of
  \<^verbatim>\<open>datetime.now()\<close> taken at line 139, \<open>result\<close> the LLM's answer after
  \<^verbatim>\<open>yaml.safe_load\<close>; of the inputs only the sender, cc and bcc lists are used after
  the prompt is built.
\<close>

definition AvailabilityRangeExtractorNode_exec ::
  "instant \<Rightarrow> strptime \<Rightarrow> strlib \<Rightarrow> string \<Rightarrow> string list \<Rightarrow> string list \<Rightarrow> pyval
     \<Rightarrow> error + pyval" where
  "AvailabilityRangeExtractorNode_exec today strptime g sender_hdr cc_list bcc_list result =
     (case required_fields result of
        Inl err \<Rightarrow> Inl err
      | Inr (r, tf) \<Rightarrow>
          (case to_datetime strptime (map_of tf ''start'') of
             Inl err \<Rightarrow> Inl err
           | Inr st \<Rightarrow>
               (case to_datetime strptime (map_of tf ''end'') of
                  Inl err \<Rightarrow> Inl err
                | Inr en \<Rightarrow>
                    if \<not> st < en then Inl (AssertionError ''Start time must be before end time'')
                    else if \<not> today \<le> st
                      then Inl (AssertionError ''Start time cannot be in the past'')
                    else
                      (let tf' = AList.update ''end'' (VDatetime en)
                                   (AList.update ''start'' (VDatetime st) tf);
                           r1 = AList.update ''timeframe'' (VDict tf') r;
                           r2 = setdefault ''attendees'' (VList []) r1
                       in case getitem r2 ''attendees'' of
                            Inl err \<Rightarrow> Inl err
                          | Inr att \<Rightarrow>
                              (case add_participants g att (sender_hdr # cc_list @ bcc_list) of
                                 Inl err \<Rightarrow> Inl err
                               | Inr att' \<Rightarrow>
                                   if \<not> joinable att' then Inl TypeError
                                   else Inr (VDict (setdefault ''location'' (VStr [])
                                                     (AList.update ''attendees'' att' r2))))))))"

text \<open>
  \<^verbatim>\<open>AvailabilityRangeExtractorNode.post\<close>: the new request of the email, or KeyError
  when the email is not in the store.
\<close>

definition AvailabilityRangeExtractorNode_post ::
  "shared \<Rightarrow> string \<Rightarrow> pyval \<Rightarrow> error + shared \<times> string" where
  "AvailabilityRangeExtractorNode_post sh email_id exec_res =
     (case map_of (pending_emails sh) email_id of
        None \<Rightarrow> Inl (KeyError email_id)
      | Some p \<Rightarrow>
          Inr (sh\<lparr>pending_emails :=
                    AList.update email_id
                      (p\<lparr>request_of := Some \<lparr>status = ''pending'', meeting = exec_res,
                                             available_slots = [], chosen_slot = VNone\<rparr>\<rparr>)
                      (pending_emails sh)\<rparr>,
               ''check_availability''))"

text \<open>The timeframe stored in a meeting dict.\<close>

definition timeframe_of :: "pyval \<Rightarrow> (pyval \<times> pyval) option" where
  "timeframe_of m =
     (case m of
        VDict r \<Rightarrow>
          (case map_of r ''timeframe'' of
             Some (VDict tf) \<Rightarrow>
               (case (map_of tf ''start'', map_of tf ''end'') of
                  (Some s, Some e) \<Rightarrow> Some (s, e)
                | _ \<Rightarrow> None)
           | _ \<Rightarrow> None)
      | _ \<Rightarrow> None)"

text \<open>
  The timeframe an LLM answer parses to: the \<^verbatim>\<open>start\<close> and \<^verbatim>\<open>end\<close> strings of its
  \<^verbatim>\<open>timeframe\<close> dict, both accepted by \<^verbatim>\<open>strptime\<close>.
\<close>

definition parsed_timeframe :: "strptime \<Rightarrow> pyval \<Rightarrow> (instant \<times> instant) option" where
  "parsed_timeframe strptime result =
     (case result of
        VDict r \<Rightarrow>
          (case map_of r ''timeframe'' of
             Some (VDict tf) \<Rightarrow>
               (case (to_datetime strptime (map_of tf ''start''),
                      to_datetime strptime (map_of tf ''end'')) of
                  (Inr s, Inr e) \<Rightarrow> Some (s, e)
                | _ \<Rightarrow> None)
           | _ \<Rightarrow> None)
      | _ \<Rightarrow> None)"

text \<open>
  The attendee list of a meeting dict, and the attendees an LLM answer supplies: its
  list under \<^verbatim>\<open>attendees\<close>, or none when the key is missing.
\<close>

definition attendees_of :: "pyval \<Rightarrow> pyval list option" where
  "attendees_of m =
     (case m of
        VDict r \<Rightarrow> (case map_of r ''attendees'' of Some (VList xs) \<Rightarrow> Some xs | _ \<Rightarrow> None)
      | _ \<Rightarrow> None)"

definition supplied_attendees :: "pyval \<Rightarrow> pyval list" where
  "supplied_attendees result =
     (case result of
        VDict r \<Rightarrow> (case map_of r ''attendees'' of Some (VList xs) \<Rightarrow> xs | _ \<Rightarrow> [])
      | _ \<Rightarrow> [])"

section \<open>AvailabilityCheckerNode\<close>

text \<open>
  \<^verbatim>\<open>AvailabilityCheckerNode.post\<close> stores the slots the availability check returned and
  returns \<^verbatim>\<open>"decide_next_action"\<close>; a missing email or request is a KeyError.
\<close>

definition AvailabilityCheckerNode_post ::
  "shared \<Rightarrow> string \<Rightarrow> slot list \<Rightarrow> error + shared \<times> string" where
  "AvailabilityCheckerNode_post sh email_id exec_res =
     (case map_of (pending_emails sh) email_id of
        None \<Rightarrow> Inl (KeyError email_id)
      | Some p \<Rightarrow>
          (case request_of p of
             None \<Rightarrow> Inl (KeyError ''request'')
           | Some rq \<Rightarrow>
               Inr (sh\<lparr>pending_emails :=
                         AList.update email_id
                           (p\<lparr>request_of := Some (rq\<lparr>available_slots := exec_res\<rparr>)\<rparr>)
                           (pending_emails sh)\<rparr>,
                    ''decide_next_action'')))"

section \<open>ActionDeciderNode\<close>

text \<open>
  \<^verbatim>\<open>ActionDeciderNode.prep\<close>: the email body, the request's free slots and meeting, and
  the configuration.
\<close>

record decider_inputs =
  email_body :: string
  inp_available_slots :: "slot list"
  inp_meeting :: pyval
  inp_config :: config

definition ActionDeciderNode_prep :: "shared \<Rightarrow> string \<Rightarrow> error + decider_inputs" where
  "ActionDeciderNode_prep sh email_id =
     (case map_of (pending_emails sh) email_id of
        None \<Rightarrow> Inl (KeyError email_id)
      | Some p \<Rightarrow>
          (case request_of p of
             None \<Rightarrow> Inl (KeyError ''request'')
           | Some rq \<Rightarrow>
               Inr \<lparr>email_body = body (email_of p),
                    inp_available_slots = available_slots rq,
                    inp_meeting = meeting rq,
                    inp_config = conf sh\<rparr>))"

text \<open>
  Lines 340-344: the log lines read \<^verbatim>\<open>result['action']\<close>, \<^verbatim>\<open>result['reason']\<close> and
  \<^verbatim>\<open>result["chosen_slot"]\<close>, each a KeyError when the key is missing; then the result
  is returned.
\<close>

definition log_and_return :: "(string \<times> pyval) list \<Rightarrow> error + (string \<times> pyval) list" where
  "log_and_return r =
     (case getitem r ''action'' of
        Inl err \<Rightarrow> Inl err
      | Inr _ \<Rightarrow>
          (case getitem r ''reason'' of
             Inl err \<Rightarrow> Inl err
           | Inr _ \<Rightarrow>
               (case getitem r ''chosen_slot'' of
                  Inl err \<Rightarrow> Inl err
                | Inr _ \<Rightarrow> Inr r)))"

text \<open>
  Lines 335-338: the chosen slot \<^verbatim>\<open>"YYYY-MM-DD HH:MM ET to HH:MM ET"\<close> is split at
  \<^verbatim>\<open>" to "\<close> (unpacking anything but two parts is a ValueError); the end time is
  parsed with the date of the start string. A truthy value that is no string has no
  \<^verbatim>\<open>split\<close>: AttributeError.
\<close>

definition parse_chosen_slot :: "strptime \<Rightarrow> pyval \<Rightarrow> error + pyval" where
  "parse_chosen_slot strptime v =
     (case v of
        VStr s \<Rightarrow>
          (case str_split s '' to '' of
             [start_str, end_str] \<Rightarrow>
               (case strptime start_str of
                  None \<Rightarrow> Inl ValueError
                | Some start \<Rightarrow>
                    (case strptime (hd (str_split start_str '' '') @ '' '' @ end_str) of
                       None \<Rightarrow> Inl ValueError
                     | Some en \<Rightarrow> Inr (VSlot start en)))
           | _ \<Rightarrow> Inl ValueError)
      | _ \<Rightarrow> Inl AttributeError)"

text \<open>
  \<^verbatim>\<open>ActionDeciderNode.exec\<close> from line 333 on; \<open>result\<close> is the LLM's answer after
  \<^verbatim>\<open>yaml.safe_load\<close>. The inputs (among them the free slots) are used for the prompt
  only. Subscripting a result that is no dict is a TypeError.
\<close>

definition ActionDeciderNode_exec ::
  "strptime \<Rightarrow> decider_inputs \<Rightarrow> pyval \<Rightarrow> error + (string \<times> pyval) list" where
  "ActionDeciderNode_exec strptime inputs result =
     (case result of
        VDict r \<Rightarrow>
          (case getitem r ''action'' of
             Inl err \<Rightarrow> Inl err
           | Inr act \<Rightarrow>
               if act = VStr ''schedule'' then
                 (case getitem r ''chosen_slot'' of
                    Inl err \<Rightarrow> Inl err
                  | Inr cs \<Rightarrow>
                      if truthy cs then
                        (case parse_chosen_slot strptime cs of
                           Inl err \<Rightarrow> Inl err
                         | Inr slot \<Rightarrow> log_and_return (AList.update ''chosen_slot'' slot r))
                      else log_and_return r)
               else log_and_return r)
      | _ \<Rightarrow> Inl TypeError)"

text \<open>
  \<^verbatim>\<open>ActionDeciderNode.post\<close>: on action \<^verbatim>\<open>schedule\<close> the result's chosen slot is written
  into the request and \<^verbatim>\<open>"schedule"\<close> returned; otherwise \<^verbatim>\<open>"ask_time"\<close>.
\<close>

definition ActionDeciderNode_post ::
  "shared \<Rightarrow> string \<Rightarrow> (string \<times> pyval) list \<Rightarrow> error + shared \<times> string" where
  "ActionDeciderNode_post sh email_id exec_res =
     (case getitem exec_res ''action'' of
        Inl err \<Rightarrow> Inl err
      | Inr act \<Rightarrow>
          if act = VStr ''schedule'' then
            (case getitem exec_res ''chosen_slot'' of
               Inl err \<Rightarrow> Inl err
             | Inr cs \<Rightarrow>
                 (case map_of (pending_emails sh) email_id of
                    None \<Rightarrow> Inl (KeyError email_id)
                  | Some p \<Rightarrow>
                      (case request_of p of
                         None \<Rightarrow> Inl (KeyError ''request'')
                       | Some rq \<Rightarrow>
                           Inr (sh\<lparr>pending_emails :=
                                     AList.update email_id
                                       (p\<lparr>request_of := Some (rq\<lparr>chosen_slot := cs\<rparr>)\<rparr>)
                                       (pending_emails sh)\<rparr>,
                                ''schedule''))))
          else Inr (sh, ''ask_time''))"

text \<open>
  The node's run on one email: prepare, execute, finalize, in this order; an error of a
  stage ends the run and leaves the store as it was.
\<close>

definition ActionDeciderNode_run ::
  "strptime \<Rightarrow> pyval \<Rightarrow> shared \<Rightarrow> string \<Rightarrow> error + shared \<times> string" where
  "ActionDeciderNode_run strptime result sh email_id =
     (case ActionDeciderNode_prep sh email_id of
        Inl err \<Rightarrow> Inl err
      | Inr inputs \<Rightarrow>
          (case ActionDeciderNode_exec strptime inputs result of
             Inl err \<Rightarrow> Inl err
           | Inr exec_res \<Rightarrow> ActionDeciderNode_post sh email_id exec_res))"



section \<open>Availability slots\<close>

text \<open>
  Modelled from the spec: the body of \<^verbatim>\<open>check_availability\<close>
  (\<^verbatim>\<open>utils/check_availability.py\<close>) is not in the sources, only its signature. The
  definitions of this section follow sections 3 and 4.5 of the specification, with
  instants counted in minutes from a reference midnight: a calendar day has 1440
  minutes, and day \<open>d\<close> at hour \<open>h\<close> is the instant \<open>d * 1440 + h * 60\<close>.
\<close>

datatype range_error = InvalidRangeError

definition minutes_per_day :: int where
  "minutes_per_day = 1440"

text \<open>
  Modelled from the spec: the calendar days in range (step 1 of 4.5) are the days
  that the search window, from its start up to but not including its end, touches.
\<close>

definition days_in_window :: "instant \<Rightarrow> instant \<Rightarrow> int list" where
  "days_in_window window_start window_end =
     [window_start div minutes_per_day .. (window_end - 1) div minutes_per_day]"

text \<open>
  Modelled from the spec: step 1 of 4.5. The search window is clipped to the calendar
  day; the day's working interval, from the day at the start hour to the day at the
  end hour, is intersected with it.
\<close>

definition working_interval :: "int \<times> int \<Rightarrow> instant \<Rightarrow> instant \<Rightarrow> int \<Rightarrow> slot" where
  "working_interval hours window_start window_end d =
     (let day_start = d * minutes_per_day;
          day_end = (d + 1) * minutes_per_day;
          clip_start = max window_start day_start;
          clip_end = min window_end day_end
      in (max clip_start (day_start + fst hours * 60),
          min clip_end (day_start + snd hours * 60)))"

text \<open>
  Modelled from the spec: step 2 of 4.5 takes the busy intervals sorted and merged
  if overlapping. \<open>merge_busy\<close> merges a list that is sorted by start.
\<close>

fun merge_busy :: "slot list \<Rightarrow> slot list" where
  "merge_busy [] = []"
| "merge_busy [b] = [b]"
| "merge_busy ((s1, e1) # (s2, e2) # bs) =
     (if s2 \<le> e1 then merge_busy ((s1, max e1 e2) # bs)
      else (s1, e1) # merge_busy ((s2, e2) # bs))"

text \<open>
  Modelled from the spec: step 2 of 4.5, subtracting the busy intervals from the
  interval from \<open>lo\<close> to \<open>hi\<close>: what lies before each busy interval is free, and
  the search goes on after it.
\<close>

fun subtract_busy :: "instant \<Rightarrow> instant \<Rightarrow> slot list \<Rightarrow> slot list" where
  "subtract_busy lo hi [] = (if lo < hi then [(lo, hi)] else [])"
| "subtract_busy lo hi ((s, e) # bs) =
     (if lo < min s hi then (lo, min s hi) # subtract_busy (max lo e) hi bs
      else subtract_busy (max lo e) hi bs)"

text \<open>
  Modelled from the spec: steps 2 and 3 of 4.5 for one day: the free sub-intervals of
  the day's working interval, without those shorter than the minimum duration.
\<close>

definition day_free_slots ::
  "slot list \<Rightarrow> instant \<Rightarrow> instant \<Rightarrow> int \<Rightarrow> int \<times> int \<Rightarrow> int \<Rightarrow> slot list" where
  "day_free_slots merged window_start window_end min_duration hours d =
     (let w = working_interval hours window_start window_end d
      in filter (\<lambda>f. min_duration \<le> snd f - fst f) (subtract_busy (fst w) (snd w) merged))"

text \<open>
  Modelled from the spec: \<^verbatim>\<open>check_availability\<close> as section 4.5 describes it. \<open>busy\<close>
  is the list of busy intervals the calendar collaborator returns for the window. A
  degenerate window fails with InvalidRangeError; otherwise the free slots of the days
  in range are concatenated in chronological order (step 4).
\<close>

definition check_availability ::
  "slot list \<Rightarrow> instant \<Rightarrow> instant \<Rightarrow> int \<Rightarrow> int \<times> int \<Rightarrow> range_error + slot list" where
  "check_availability busy start_time end_time min_duration hours =
     (if end_time \<le> start_time then Inl InvalidRangeError
      else
        let merged = merge_busy (sort_key fst busy)
        in Inr (concat (map (day_free_slots merged start_time end_time min_duration hours)
                          (days_in_window start_time end_time))))"

text \<open>
  Modelled from the spec: section 3. A sequence of slots is well-formed iff it is
  sorted ascending by start and pairwise non-overlapping; two slots do not overlap
  when one ends at or before the start of the other.
\<close>

fun non_overlapping :: "slot list \<Rightarrow> bool" where
  "non_overlapping [] = True"
| "non_overlapping (x # xs) =
     ((\<forall>y\<in>set xs. snd x \<le> fst y \<or> snd y \<le> fst x) \<and> non_overlapping xs)"

definition well_formed :: "slot list \<Rightarrow> bool" where
  "well_formed xs = (sorted (map fst xs) \<and> non_overlapping xs)"

section \<open>Sample inputs\<close>

text \<open>
  \<^verbatim>\<open>getaddresses\<close> on headers that are bare addresses: each comes back with an empty
  display name.
\<close>

definition bare_getaddresses :: getaddresses where
  "bare_getaddresses hdrs = map (\<lambda>h. ([], h)) hdrs"

definition sample_lib :: strlib where
  "sample_lib =
     \<lparr>lib_getaddresses = bare_getaddresses, lib_lower = lower, lib_strip = strip\<rparr>"

definition sample_config :: config where
  "sample_config =
     \<lparr>authorized_user = ''Boss@Example.com'', username = ''bot@example.com'',
      password = ''secret'', working_hours = (9, 17)\<rparr>"

text \<open>An email sent by the authorized user, and one that only lists them under To.\<close>

definition mail_from_boss :: email where
  "mail_from_boss =
     \<lparr>message_id = ''m1'', sender = ''boss@example.com'', to_addrs = [''bot@example.com''],
      cc = [], bcc = [], subject = ''Sync'', body = ''Can we meet on Monday?''\<rparr>"

definition mail_to_boss :: email where
  "mail_to_boss =
     \<lparr>message_id = ''m2'', sender = ''eve@example.com'', to_addrs = [''boss@example.com''],
      cc = [''bot@example.com''], bcc = [], subject = ''Hello'', body = ''Lunch?''\<rparr>"

text \<open>A store that still holds a message of an earlier batch.\<close>

definition old_shared :: shared where
  "old_shared =
     \<lparr>conf = sample_config,
      pending_emails =
        [(''m0'', \<lparr>email_of = mail_to_boss\<lparr>message_id := ''m0''\<rparr>, request_of = None,
                   draft_email = None\<rparr>)]\<rparr>"

text \<open>
  Three values of \<^verbatim>\<open>strptime\<close>, in minutes from 2030-01-07 00:00: every other string
  is taken not to match.
\<close>

definition sample_strptime :: strptime where
  "sample_strptime =
     map_of [(''2030-01-07 10:00 ET'', 600),
             (''2030-01-07 11:00 ET'', 660),
             (''2030-01-07 14:00 ET'', 840),
             (''2030-01-07 15:00 ET'', 900)]"

text \<open>
  A store whose email \<open>m1\<close> has a request with the single free slot 10:00 to 11:00, and
  an LLM decision that schedules 14:00 to 15:00.
\<close>

definition decider_shared :: "slot list \<Rightarrow> shared" where
  "decider_shared free =
     \<lparr>conf = sample_config,
      pending_emails =
        [(''m1'', \<lparr>email_of = mail_from_boss,
                   request_of = Some \<lparr>status = ''pending'', meeting = VDict [],
                                       available_slots = free, chosen_slot = VNone\<rparr>,
                   draft_email = None\<rparr>)]\<rparr>"

definition decision_outside :: pyval where
  "decision_outside =
     VDict [(''action'', VStr ''schedule''),
            (''reason'', VStr ''the email asks for Monday afternoon''),
            (''chosen_slot'', VStr ''2030-01-07 14:00 ET to 15:00 ET'')]"

text \<open>An LLM decision that asks for preferences.\<close>

definition decision_ask :: pyval where
  "decision_ask =
     VDict [(''action'', VStr ''ask_time''),
            (''reason'', VStr ''no free slot to choose from''),
            (''chosen_slot'', VNone)]"

text \<open>
  LLM answers of the detail-extraction step: a meeting on 2030-01-07 from 10:00 to
  11:00 with the given attendees, and one whose timeframe ends before it starts.
\<close>

definition extraction :: "pyval list \<Rightarrow> pyval" where
  "extraction atts =
     VDict [(''duration'', VInt 30),
            (''timeframe'', VDict [(''start'', VStr ''2030-01-07 10:00 ET''),
                                   (''end'', VStr ''2030-01-07 11:00 ET'')]),
            (''attendees'', VList atts),
            (''description'', VStr ''Weekly sync''),
            (''reason'', VStr ''the email names Monday morning'')]"

definition extraction_backwards :: pyval where
  "extraction_backwards =
     VDict [(''duration'', VInt 30),
            (''timeframe'', VDict [(''start'', VStr ''2030-01-07 11:00 ET''),
                                   (''end'', VStr ''2030-01-07 10:00 ET'')]),
            (''description'', VStr ''Weekly sync''),
            (''reason'', VStr ''the email names Monday morning'')]"

section \<open>Properties of the fetcher\<close>

lemma authorized_emails_sound:
  "authorized_emails g a es = Inr r \<Longrightarrow> set r \<subseteq> set es \<and> (\<forall>e\<in>set r. involves g a e = Inr True)"
  by (induction es arbitrary: r) (auto split: sum.splits if_splits)

lemma authorized_emails_complete:
  "authorized_emails g a es = Inr r \<Longrightarrow> e \<in> set es \<Longrightarrow> involves g a e = Inr True \<Longrightarrow> e \<in> set r"
  by (induction es arbitrary: r) (auto split: sum.splits if_splits)

lemma authorized_emails_total:
  "authorized_emails g a es = Inr r \<Longrightarrow> e \<in> set es \<Longrightarrow> \<exists>b. involves g a e = Inr b"
  by (induction es arbitrary: r) (auto split: sum.splits if_splits)

lemma authorized_emails_drop:
  "authorized_emails g a es = Inr r \<Longrightarrow> involves g a e = Inr False \<Longrightarrow> e \<notin> set r"
  using authorized_emails_sound by fastforce

lemma authorized_emails_empty:
  "authorized_emails g a es = Inr r \<Longrightarrow> (r = []) = (\<forall>e\<in>set es. involves g a e = Inr False)"
  by (induction es arbitrary: r) (auto split: sum.splits if_splits)


lemma foldl_store_keys:
  "fst ` set (foldl store_msg d ms) = fst ` set d \<union> message_id ` set ms"
  by (induction ms arbitrary: d) (auto simp: store_msg_def dom_update)

lemma foldl_store_distinct:
  "distinct (map fst d) \<Longrightarrow> distinct (map fst (foldl store_msg d ms))"
  by (induction ms arbitrary: d) (auto simp: store_msg_def distinct_update)

lemma foldl_store_values:
  "map_of (foldl store_msg d ms) k = Some p \<Longrightarrow>
     map_of d k = Some p \<or>
     (\<exists>m\<in>set ms. message_id m = k \<and> p = \<lparr>email_of = m, request_of = None, draft_email = None\<rparr>)"
proof (induction ms arbitrary: d)
  case Nil
  then show ?case by simp
next
  case (Cons m ms)
  from Cons.IH [of "store_msg d m"] Cons.prems
  show ?case
    by (auto simp: store_msg_def update_conv' split: if_splits)
qed

lemma new_pending_fold: "new_pending ms = foldl store_msg [] ms"
  by (simp add: new_pending_def)

lemma new_pending_keys: "fst ` set (new_pending ms) = message_id ` set ms"
  by (simp add: new_pending_fold foldl_store_keys)

lemma new_pending_values:
  "map_of (new_pending ms) k = Some p \<Longrightarrow>
     \<exists>m\<in>set ms. message_id m = k \<and> p = \<lparr>email_of = m, request_of = None, draft_email = None\<rparr>"
  using foldl_store_values [of "[]" ms k p] by (simp add: new_pending_fold)

lemma new_pending_absent:
  "k \<notin> message_id ` set ms \<Longrightarrow> map_of (new_pending ms) k = None"
  using new_pending_keys [of ms] by (metis map_of_eq_None_iff)

lemma new_pending_present:
  "m \<in> set ms \<Longrightarrow> \<exists>p. map_of (new_pending ms) (message_id m) = Some p"
  using new_pending_keys [of ms]
  by (metis imageI map_of_eq_None_iff not_Some_eq)

lemma exec_result_nonempty:
  "EmailFetcherNode_exec g emails c = Inr (Some ms) \<Longrightarrow> ms \<noteq> []"
  by (auto simp: EmailFetcherNode_exec_def split: if_splits sum.splits)

lemma post_found:
  "ms \<noteq> [] \<Longrightarrow> EmailFetcherNode_post sh (Some ms) = (sh\<lparr>pending_emails := new_pending ms\<rparr>, 0, ''analyze_batch'')"
  by (cases ms) (simp_all add: EmailFetcherNode_post_def)

text \<open>
  Claim C6. In every polling cycle in which \<^verbatim>\<open>EmailFetcherNode.exec\<close> returns: when it
  found no email involving the authorized user (result \<open>None\<close>), \<^verbatim>\<open>post\<close> sleeps 30
  seconds, leaves the store as it is and returns \<^verbatim>\<open>"monitor"\<close>, whose registered
  successor is the fetcher itself; when it found some, \<^verbatim>\<open>post\<close> stores them under
  \<^verbatim>\<open>pending_emails\<close>, keyed by message identifier, without sleeping, and returns
  \<^verbatim>\<open>"analyze_batch"\<close>, whose registered successor is the batch analysis flow.
\<close>

theorem fetcher_cycle:
  "EmailFetcherNode_exec g emails c = Inr res \<Longrightarrow>
     (case res of
        None \<Rightarrow>
          EmailFetcherNode_post sh res = (sh, 30, ''monitor'') \<and>
          successors email_fetcher ''monitor'' = Some (Some email_fetcher)
      | Some ms \<Rightarrow>
          EmailFetcherNode_post sh res =
            (sh\<lparr>pending_emails := new_pending ms\<rparr>, 0, ''analyze_batch'') \<and>
          successors email_fetcher ''analyze_batch'' = Some (Some email_analysis) \<and>
          fst ` set (new_pending ms) = message_id ` set ms \<and>
          (\<forall>k p. map_of (new_pending ms) k = Some p \<longrightarrow>
                 message_id (email_of p) = k \<and> email_of p \<in> set ms))"
proof (cases res)
  case None
  then show ?thesis
    by (simp add: EmailFetcherNode_post_def successors_def wiring_def)
next
  case (Some ms)
  assume ex: "EmailFetcherNode_exec g emails c = Inr res"
  with Some have ne: "ms \<noteq> []" using exec_result_nonempty by blast
  have vals: "\<forall>k p. map_of (new_pending ms) k = Some p \<longrightarrow>
                 message_id (email_of p) = k \<and> email_of p \<in> set ms"
    using new_pending_values by fastforce
  have succ: "successors email_fetcher ''analyze_batch'' = Some (Some email_analysis)"
    by (simp add: successors_def wiring_def)
  show ?thesis
    using Some post_found [OF ne] succ new_pending_keys vals by simp
qed


lemma sample_exec:
  "EmailFetcherNode_exec sample_lib [mail_to_boss, mail_from_boss] sample_config
     = Inr (Some [mail_from_boss])"
  by (simp add: EmailFetcherNode_exec_def parse_addr_def sample_lib_def bare_getaddresses_def involves_def
      sample_config_def mail_from_boss_def mail_to_boss_def strip_def lower_def lower_char_def upper_chars_def lower_chars_def
      is_space_def)

theorem fetcher_cycle_witness:
  "EmailFetcherNode_post old_shared (Some [mail_from_boss]) =
     (old_shared\<lparr>pending_emails := new_pending [mail_from_boss]\<rparr>, 0, ''analyze_batch'') \<and>
   successors email_fetcher ''analyze_batch'' = Some (Some email_analysis) \<and>
   fst ` set (new_pending [mail_from_boss]) = {''m1''}"
  using fetcher_cycle [OF sample_exec, of old_shared] by (simp add: mail_from_boss_def)

text \<open>
  Claim C9. When the fetcher's execute stage returns emails, each of them is one of the
  unread emails and its sender, parsed, lowercased and stripped, equals the authorized
  address, or the authorized address is in its cc or bcc list. An unread email of another
  sender that has the authorized address in neither list (also when it is among its To
  recipients) is not in the result and is not stored by the finalize stage.
\<close>

theorem fetcher_admits_only_involved:
  assumes ex: "EmailFetcherNode_exec g emails c = Inr (Some r)"
  shows "\<exists>authorized_email.
           parse_addr g (authorized_user c) = Inr authorized_email \<and>
           (\<forall>e\<in>set r. e \<in> set emails \<and>
              (parse_addr g (sender e) = Inr authorized_email \<or>
               authorized_email \<in> set (cc e) \<or> authorized_email \<in> set (bcc e))) \<and>
           (\<forall>e\<in>set emails.
              parse_addr g (sender e) \<noteq> Inr authorized_email \<and>
              authorized_email \<notin> set (cc e) \<and> authorized_email \<notin> set (bcc e) \<longrightarrow>
              e \<notin> set r \<and>
              (\<forall>p\<in>set (pending_emails (fst (EmailFetcherNode_post sh (Some r)))).
                 email_of (snd p) \<noteq> e))"
proof -
  from ex obtain a where a: "parse_addr g (authorized_user c) = Inr a"
    and f: "authorized_emails g a emails = Inr r" and ne: "r \<noteq> []"
    by (auto simp: EmailFetcherNode_exec_def split: if_splits sum.splits)
  have inv: "\<And>e. involves g a e = Inr True \<Longrightarrow>
      parse_addr g (sender e) = Inr a \<or> a \<in> set (cc e) \<or> a \<in> set (bcc e)"
    by (auto simp: involves_def split: sum.splits)
  have kept: "\<forall>e\<in>set r. e \<in> set emails \<and>
      (parse_addr g (sender e) = Inr a \<or> a \<in> set (cc e) \<or> a \<in> set (bcc e))"
    using authorized_emails_sound [OF f] inv by blast
  have stored: "\<And>p. p \<in> set (pending_emails (fst (EmailFetcherNode_post sh (Some r))))
      \<Longrightarrow> email_of (snd p) \<in> set r"
  proof -
    fix p assume "p \<in> set (pending_emails (fst (EmailFetcherNode_post sh (Some r))))"
    then have "p \<in> set (new_pending r)" using post_found [OF ne, of sh] by simp
    moreover have "distinct (map fst (new_pending r))"
      using foldl_store_distinct [of "[]" r] by (simp add: new_pending_fold)
    ultimately have "map_of (new_pending r) (fst p) = Some (snd p)" by simp
    from new_pending_values [OF this] show "email_of (snd p) \<in> set r" by auto
  qed
  have dropped: "\<forall>e\<in>set emails.
      parse_addr g (sender e) \<noteq> Inr a \<and> a \<notin> set (cc e) \<and> a \<notin> set (bcc e) \<longrightarrow>
      e \<notin> set r \<and>
      (\<forall>p\<in>set (pending_emails (fst (EmailFetcherNode_post sh (Some r)))). email_of (snd p) \<noteq> e)"
    using kept stored by blast
  from a kept dropped show ?thesis by blast
qed

text \<open>
  Claim C10. When a fetch cycle found emails involving the authorized user, the
  finalize stage replaces the whole \<^verbatim>\<open>pending_emails\<close> mapping by the mapping built from
  the fetched messages alone: its keys are exactly their message identifiers, every
  other key (so every entry of an earlier batch that is still stored) maps to nothing,
  and every entry is a fetched message with no request yet.
\<close>

theorem fetcher_post_replaces_pending:
  assumes ex: "EmailFetcherNode_exec g emails c = Inr (Some ms)"
  shows "pending_emails (fst (EmailFetcherNode_post sh (Some ms))) = new_pending ms \<and>
         fst ` set (new_pending ms) = message_id ` set ms \<and>
         (\<forall>k. k \<notin> message_id ` set ms \<longrightarrow>
              map_of (pending_emails (fst (EmailFetcherNode_post sh (Some ms)))) k = None) \<and>
         (\<forall>k p. map_of (pending_emails (fst (EmailFetcherNode_post sh (Some ms)))) k = Some p
              \<longrightarrow> email_of p \<in> set ms \<and> message_id (email_of p) = k \<and> request_of p = None)"
proof -
  have ne: "ms \<noteq> []" using ex by (rule exec_result_nonempty)
  have p: "pending_emails (fst (EmailFetcherNode_post sh (Some ms))) = new_pending ms"
    using post_found [OF ne, of sh] by simp
  have v: "\<forall>k p. map_of (new_pending ms) k = Some p
              \<longrightarrow> email_of p \<in> set ms \<and> message_id (email_of p) = k \<and> request_of p = None"
    using new_pending_values by fastforce
  show ?thesis
    using p new_pending_keys [of ms] new_pending_absent [of _ ms] v by simp
qed

theorem fetcher_post_replaces_pending_witness:
  "map_of (pending_emails old_shared) ''m0'' \<noteq> None \<and>
   map_of (pending_emails (fst (EmailFetcherNode_post old_shared (Some [mail_from_boss])))) ''m0''
     = None \<and>
   pending_emails (fst (EmailFetcherNode_post old_shared (Some [mail_from_boss])))
     = new_pending [mail_from_boss]"
proof -
  note c = fetcher_post_replaces_pending [OF sample_exec, of old_shared]
  have ids: "''m0'' \<notin> message_id ` set [mail_from_boss]"
    by (simp add: mail_from_boss_def)
  from c ids
  have gone: "map_of (pending_emails (fst (EmailFetcherNode_post old_shared
                (Some [mail_from_boss])))) ''m0'' = None"
    by blast
  have old: "map_of (pending_emails old_shared) ''m0'' \<noteq> None"
    by (simp add: old_shared_def)
  from c gone old show ?thesis by blast
qed

theorem fetcher_admits_only_involved_witness:
  "EmailFetcherNode_exec sample_lib [mail_to_boss, mail_from_boss] sample_config
     = Inr (Some [mail_from_boss]) \<and>
   ''boss@example.com'' \<in> set (to_addrs mail_to_boss) \<and>
   mail_to_boss \<notin> set [mail_from_boss] \<and>
   mail_to_boss \<notin> (\<lambda>p. email_of (snd p)) `
      set (pending_emails (fst (EmailFetcherNode_post old_shared (Some [mail_from_boss]))))"
proof -
  have auth: "parse_addr sample_lib (authorized_user sample_config)
                = Inr ''boss@example.com''"
    by (simp add: parse_addr_def sample_lib_def bare_getaddresses_def sample_config_def strip_def lower_def
        lower_char_def upper_chars_def lower_chars_def is_space_def)
  have snd: "parse_addr sample_lib (sender mail_to_boss) = Inr ''eve@example.com''"
    by (simp add: parse_addr_def sample_lib_def bare_getaddresses_def mail_to_boss_def strip_def lower_def
        lower_char_def upper_chars_def lower_chars_def is_space_def)
  have other: "parse_addr sample_lib (sender mail_to_boss) \<noteq> Inr ''boss@example.com'' \<and>
      ''boss@example.com'' \<notin> set (cc mail_to_boss) \<and>
      ''boss@example.com'' \<notin> set (bcc mail_to_boss)"
    unfolding snd by (simp add: mail_to_boss_def)
  have to: "''boss@example.com'' \<in> set (to_addrs mail_to_boss)"
    by (simp add: mail_to_boss_def)
  from fetcher_admits_only_involved [OF sample_exec, of old_shared] auth
  have "\<forall>e\<in>set [mail_to_boss, mail_from_boss].
          parse_addr sample_lib (sender e) \<noteq> Inr ''boss@example.com'' \<and>
          ''boss@example.com'' \<notin> set (cc e) \<and> ''boss@example.com'' \<notin> set (bcc e) \<longrightarrow>
          e \<notin> set [mail_from_boss] \<and>
          (\<forall>p\<in>set (pending_emails (fst (EmailFetcherNode_post old_shared
                (Some [mail_from_boss])))). email_of (snd p) \<noteq> e)"
    by auto
  with other have "mail_to_boss \<notin> set [mail_from_boss] \<and>
      (\<forall>p\<in>set (pending_emails (fst (EmailFetcherNode_post old_shared
                (Some [mail_from_boss])))). email_of (snd p) \<noteq> mail_to_boss)"
    by simp
  with to sample_exec show ?thesis by auto
qed

section \<open>Properties of the action-decision node\<close>

lemma getitem_Inr: "(getitem d k = Inr v) = (map_of d k = Some v)"
  by (simp add: getitem_def split: option.splits)





lemma sample_split: "str_split ''2030-01-07 14:00 ET to 15:00 ET'' '' to '' = [''2030-01-07 14:00 ET'', ''15:00 ET'']"
  by (simp add: str_split_def)

lemma sample_split2: "str_split ''2030-01-07 14:00 ET'' '' '' = [''2030-01-07'', ''14:00'', ''ET'']"
  by (simp add: str_split_def)

lemma sample_run:
  "ActionDeciderNode_run sample_strptime decision_outside (decider_shared free) ''m1'' =
     Inr ((decider_shared free)\<lparr>pending_emails :=
             [(''m1'', \<lparr>email_of = mail_from_boss,
                   request_of = Some \<lparr>status = ''pending'', meeting = VDict [],
                                       available_slots = free, chosen_slot = VSlot 840 900\<rparr>,
                   draft_email = None\<rparr>)]\<rparr>, ''schedule'')"
  by (simp add: ActionDeciderNode_run_def ActionDeciderNode_prep_def ActionDeciderNode_exec_def
      ActionDeciderNode_post_def decider_shared_def decision_outside_def getitem_def
      parse_chosen_slot_def sample_split sample_split2 sample_strptime_def log_and_return_def)





section \<open>Properties of the graph wiring\<close>

lemma wiring_targets:
  "((n, a), Some m) \<in> set wiring \<Longrightarrow>
     m \<in> {email_fetcher, email_analysis, range_extractor, availability_checker,
          action_decider, meeting_scheduler, schedule_confirmation, time_proposal, email_sender}"
  unfolding wiring_def by simp blast

lemma reachable_nodes:
  "reachable n \<Longrightarrow>
     n \<in> {email_fetcher, email_analysis, email_analyzer, range_extractor, availability_checker,
          action_decider, meeting_scheduler, schedule_confirmation, time_proposal, email_sender}"
proof (induction rule: reachable.induct)
  case start
  show ?case by simp
next
  case batch
  show ?case by simp
next
  case (step n a m)
  from step.hyps(2) have "((n, a), Some m) \<in> set wiring"
    unfolding successors_def by (rule map_of_SomeD)
  from wiring_targets [OF this] show ?case by blast
qed

lemma no_slots_unreachable: "\<not> reachable no_slots"
  using reachable_nodes [of no_slots] by blast

lemma no_edge_into_no_slots: "Some no_slots \<notin> snd ` set wiring"
  by (simp add: wiring_def)

lemma sample_run_ask:
  "ActionDeciderNode_run sample_strptime decision_ask (decider_shared free) ''m1'' =
     Inr (decider_shared free, ''ask_time'')"
  by (simp add: ActionDeciderNode_run_def ActionDeciderNode_prep_def ActionDeciderNode_exec_def
      ActionDeciderNode_post_def decider_shared_def decision_ask_def getitem_def
      log_and_return_def)

text \<open>
  Claim C2, evaluated at the failing input: an email whose request has an empty list of
  free slots. When the LLM decision is \<^verbatim>\<open>ask_time\<close> the walk goes on to the proposal
  email node, when it is \<^verbatim>\<open>schedule\<close> to the calendar scheduler; no transition leads to
  the no-slots email node, which no walk reaches.
\<close>

theorem empty_slots_never_reach_no_slots_node:
  "inp_available_slots (projr (ActionDeciderNode_prep (decider_shared []) ''m1'')) = [] \<and>
   ActionDeciderNode_run sample_strptime decision_ask (decider_shared []) ''m1''
     = Inr (decider_shared [], ''ask_time'') \<and>
   successors action_decider ''ask_time'' = Some (Some time_proposal) \<and>
   snd (projr (ActionDeciderNode_run sample_strptime decision_outside (decider_shared []) ''m1''))
     = ''schedule'' \<and>
   successors action_decider ''schedule'' = Some (Some meeting_scheduler) \<and>
   Some no_slots \<notin> snd ` set wiring \<and>
   \<not> reachable no_slots"
proof -
  have a: "inp_available_slots (projr (ActionDeciderNode_prep (decider_shared []) ''m1'')) = []"
    by (simp add: ActionDeciderNode_prep_def decider_shared_def)
  have b: "snd (projr (ActionDeciderNode_run sample_strptime decision_outside
             (decider_shared []) ''m1'')) = ''schedule''"
    by (simp add: sample_run)
  have c: "successors action_decider ''schedule'' = Some (Some meeting_scheduler)"
    by (simp add: successors_def wiring_def)
  have d: "successors action_decider ''ask_time'' = Some (Some time_proposal)"
    by (simp add: successors_def wiring_def)
  from a b c d sample_run_ask [of "[]"] no_edge_into_no_slots no_slots_unreachable
  show ?thesis by blast
qed

section \<open>Properties of the detail-extraction node\<close>

lemma map_of_setdefault:
  "map_of (setdefault k v d) k' =
     (case map_of d k' of Some x \<Rightarrow> Some x | None \<Rightarrow> if k' = k then Some v else None)"
  by (auto simp: setdefault_def map_add_def split: option.splits)

lemma required_fields_Inr:
  "required_fields result = Inr (r, tf) \<Longrightarrow>
     result = VDict r \<and> map_of r ''timeframe'' = Some (VDict tf)"
  by (auto simp: required_fields_def split: pyval.splits option.splits if_splits sum.splits)

lemma add_attendee_list:
  "add_attendee (VList ys) a = Inr att \<Longrightarrow>
     att = VList (if VStr a \<in> set ys then ys else ys @ [VStr a])"
  by (auto split: if_splits)

lemma add_attendee_keeps_shape:
  "add_attendee att a = Inr (VList xs) \<Longrightarrow> \<exists>ys. att = VList ys"
  by (cases att) (auto split: if_splits)

lemma add_participants_list:
  "add_participants g (VList ys) addrs = Inr att \<Longrightarrow>
     \<exists>added. att = VList (ys @ added) \<and> distinct added \<and> set added \<inter> set ys = {} \<and>
          (\<forall>addr\<in>set addrs. \<exists>a. parse_addr g addr = Inr a \<and> VStr a \<in> set (ys @ added)) \<and>
          (\<forall>x\<in>set added. \<exists>addr\<in>set addrs. \<exists>a. parse_addr g addr = Inr a \<and> x = VStr a)"
proof (induction addrs arbitrary: ys)
  case Nil
  then show ?case by auto
next
  case (Cons addr rest)
  from Cons.prems obtain a att1 where a: "parse_addr g addr = Inr a"
    and s: "add_attendee (VList ys) a = Inr att1"
    and r: "add_participants g att1 rest = Inr att"
    by (auto split: sum.splits)
  show ?case
  proof (cases "VStr a \<in> set ys")
    case True
    with add_attendee_list [OF s] have "att1 = VList ys" by simp
    with r Cons.IH [of ys] obtain added where ad: "att = VList (ys @ added)" "distinct added"
      "set added \<inter> set ys = {}"
      "\<forall>addr\<in>set rest. \<exists>a. parse_addr g addr = Inr a \<and> VStr a \<in> set (ys @ added)"
      "\<forall>x\<in>set added. \<exists>addr\<in>set rest. \<exists>b. parse_addr g addr = Inr b \<and> x = VStr b"
      by blast
    from ad a True show ?thesis by auto
  next
    case False
    with add_attendee_list [OF s] have "att1 = VList (ys @ [VStr a])" by simp
    with r Cons.IH [of "ys @ [VStr a]"] obtain added where
      ad: "att = VList ((ys @ [VStr a]) @ added)" "distinct added"
      "set added \<inter> set (ys @ [VStr a]) = {}"
      "\<forall>addr\<in>set rest. \<exists>b. parse_addr g addr = Inr b \<and> VStr b \<in> set ((ys @ [VStr a]) @ added)"
      "\<forall>x\<in>set added. \<exists>addr\<in>set rest. \<exists>b. parse_addr g addr = Inr b \<and> x = VStr b"
      by blast
    have 1: "att = VList (ys @ (VStr a # added))" using ad(1) by simp
    have 2: "distinct (VStr a # added)" using ad(2,3) by auto
    have 3: "set (VStr a # added) \<inter> set ys = {}" using ad(3) False by auto
    have 4: "\<forall>addr'\<in>set (addr # rest).
               \<exists>b. parse_addr g addr' = Inr b \<and> VStr b \<in> set (ys @ (VStr a # added))"
      using ad(4) a by auto
    have 5: "\<forall>x\<in>set (VStr a # added). \<exists>addr'\<in>set (addr # rest).
               \<exists>b. parse_addr g addr' = Inr b \<and> x = VStr b"
      using ad(5) a by auto
    from 1 2 3 4 5 show ?thesis by blast
  qed
qed

lemma add_participants_keeps_shape:
  "add_participants g att addrs = Inr (VList xs) \<Longrightarrow> \<exists>ys. att = VList ys"
proof (induction addrs arbitrary: att)
  case Nil
  then show ?case by simp
next
  case (Cons addr rest)
  from Cons.prems obtain a att1 where s: "add_attendee att a = Inr att1"
    and r: "add_participants g att1 rest = Inr (VList xs)"
    by (auto split: sum.splits)
  from Cons.IH [OF r] obtain zs where "att1 = VList zs" ..
  with s show ?case using add_attendee_keeps_shape by blast
qed


lemma joinable_list: "joinable (VList xs) \<Longrightarrow> x \<in> set xs \<Longrightarrow> \<exists>a. x = VStr a"
  by (cases x) (auto simp: list_all_iff)

lemma exec_success:
  assumes "AvailabilityRangeExtractorNode_exec today strptime g s ccs bccs result = Inr res"
  shows "\<exists>r tf st en att att'.
           required_fields result = Inr (r, tf) \<and>
           to_datetime strptime (map_of tf ''start'') = Inr st \<and>
           to_datetime strptime (map_of tf ''end'') = Inr en \<and>
           st < en \<and> today \<le> st \<and>
           getitem (setdefault ''attendees'' (VList [])
                     (AList.update ''timeframe''
                        (VDict (AList.update ''end'' (VDatetime en)
                                  (AList.update ''start'' (VDatetime st) tf))) r))
                   ''attendees'' = Inr att \<and>
           add_participants g att (s # ccs @ bccs) = Inr att' \<and> joinable att' \<and>
           res = VDict (setdefault ''location'' (VStr [])
                   (AList.update ''attendees'' att'
                      (setdefault ''attendees'' (VList [])
                         (AList.update ''timeframe''
                            (VDict (AList.update ''end'' (VDatetime en)
                                      (AList.update ''start'' (VDatetime st) tf))) r))))"
  using assms
  by (auto simp add: AvailabilityRangeExtractorNode_exec_def Let_def
      simp del: add_participants.simps split: sum.splits prod.splits if_splits)


lemma exec_timeframe:
  assumes ex: "AvailabilityRangeExtractorNode_exec today strptime g s ccs bccs result = Inr res"
  shows "\<exists>st en. parsed_timeframe strptime result = Some (st, en) \<and>
           timeframe_of res = Some (VDatetime st, VDatetime en) \<and> st < en \<and> today \<le> st"
proof -
  from exec_success [OF ex] obtain r tf st en att att' where
    rf: "required_fields result = Inr (r, tf)" and
    st: "to_datetime strptime (map_of tf ''start'') = Inr st" and
    en: "to_datetime strptime (map_of tf ''end'') = Inr en" and
    ord: "st < en" "today \<le> st" and
    res: "res = VDict (setdefault ''location'' (VStr [])
                   (AList.update ''attendees'' att'
                      (setdefault ''attendees'' (VList [])
                         (AList.update ''timeframe''
                            (VDict (AList.update ''end'' (VDatetime en)
                                      (AList.update ''start'' (VDatetime st) tf))) r))))"
    by blast
  from required_fields_Inr [OF rf] st en
  have p: "parsed_timeframe strptime result = Some (st, en)"
    by (simp add: parsed_timeframe_def)
  have t: "timeframe_of res = Some (VDatetime st, VDatetime en)"
    unfolding res by (simp add: timeframe_of_def map_of_setdefault update_conv')
  from p t ord show ?thesis by blast
qed

lemma post_stores_meeting:
  "AvailabilityRangeExtractorNode_post sh email_id res = Inr (sh', a) \<Longrightarrow>
     \<exists>p rq. map_of (pending_emails sh') email_id = Some p \<and> request_of p = Some rq \<and>
            meeting rq = res \<and> a = ''check_availability''"
  by (auto simp: AvailabilityRangeExtractorNode_post_def update_conv' split: option.splits)

text \<open>
  Claim C7. Whenever the LLM answer's timeframe parses to a start and an end with
  start at or after the end, or start before the current time taken at the start of
  the call, the detail-extraction node's execute stage fails. When it succeeds, the
  result's timeframe is the parsed one, with start before end and start not before
  that current time, and the finalize stage stores this result as the meeting of the
  email's request.
\<close>

theorem extractor_validates_timeframe:
  "(\<forall>st en. parsed_timeframe strptime result = Some (st, en) \<and> (en \<le> st \<or> st < today) \<longrightarrow>
      isl (AvailabilityRangeExtractorNode_exec today strptime g s ccs bccs result)) \<and>
   (\<forall>res. AvailabilityRangeExtractorNode_exec today strptime g s ccs bccs result = Inr res \<longrightarrow>
      (\<exists>st en. parsed_timeframe strptime result = Some (st, en) \<and>
         timeframe_of res = Some (VDatetime st, VDatetime en) \<and> st < en \<and> today \<le> st \<and>
         (\<forall>sh email_id sh' a.
            AvailabilityRangeExtractorNode_post sh email_id res = Inr (sh', a) \<longrightarrow>
            (\<exists>p rq. map_of (pending_emails sh') email_id = Some p \<and>
                    request_of p = Some rq \<and> meeting rq = res))))"
proof (intro conjI allI impI)
  fix st en
  assume a: "parsed_timeframe strptime result = Some (st, en) \<and> (en \<le> st \<or> st < today)"
  show "isl (AvailabilityRangeExtractorNode_exec today strptime g s ccs bccs result)"
  proof (cases "AvailabilityRangeExtractorNode_exec today strptime g s ccs bccs result")
    case (Inl err)
    then show ?thesis by simp
  next
    case (Inr res)
    from exec_timeframe [OF Inr] a show ?thesis by auto
  qed
next
  fix res
  assume ex: "AvailabilityRangeExtractorNode_exec today strptime g s ccs bccs result = Inr res"
  from exec_timeframe [OF ex] post_stores_meeting [of _ _ res]
  show "\<exists>st en. parsed_timeframe strptime result = Some (st, en) \<and>
         timeframe_of res = Some (VDatetime st, VDatetime en) \<and> st < en \<and> today \<le> st \<and>
         (\<forall>sh email_id sh' a.
            AvailabilityRangeExtractorNode_post sh email_id res = Inr (sh', a) \<longrightarrow>
            (\<exists>p rq. map_of (pending_emails sh') email_id = Some p \<and>
                    request_of p = Some rq \<and> meeting rq = res))"
    by blast
qed

lemma parsed_backwards: "parsed_timeframe sample_strptime extraction_backwards = Some (660, 600)"
  by (simp add: parsed_timeframe_def extraction_backwards_def to_datetime_def sample_strptime_def)

theorem extractor_validates_timeframe_witness:
  "parsed_timeframe sample_strptime extraction_backwards = Some (660, 600) \<and>
   isl (AvailabilityRangeExtractorNode_exec 0 sample_strptime sample_lib
          ''boss@example.com'' [] [] extraction_backwards)"
  using extractor_validates_timeframe [of sample_strptime extraction_backwards 0 sample_lib
      "''boss@example.com''" "[]" "[]"] parsed_backwards
  by simp

text \<open>
  Claim C8, as amended. After the detail-extraction node's execute stage succeeds
  with a list of attendees, the list is the attendees the LLM supplied, kept as they
  are, followed by addresses the node added; every added entry is the normalized
  (lowercased, stripped) address of the sender or of a cc or bcc recipient, is added
  once and only when no equal entry was in the list. So the list contains the
  normalized address of the sender and of every cc and bcc recipient, all its entries
  are strings, and it has no two equal entries whenever the supplied attendees had
  none.
\<close>

theorem extractor_adds_participants:
  assumes ex: "AvailabilityRangeExtractorNode_exec today strptime g s ccs bccs result = Inr res"
    and at: "attendees_of res = Some xs"
  shows "(\<forall>addr\<in>set (s # ccs @ bccs). \<exists>a. parse_addr g addr = Inr a \<and> VStr a \<in> set xs) \<and>
         (\<exists>added. xs = supplied_attendees result @ added \<and> distinct added \<and>
            set added \<inter> set (supplied_attendees result) = {} \<and>
            (\<forall>x\<in>set added. \<exists>addr\<in>set (s # ccs @ bccs). \<exists>a.
                parse_addr g addr = Inr a \<and> x = VStr a)) \<and>
         (\<forall>x\<in>set xs. \<exists>a. x = VStr a) \<and>
         (distinct (supplied_attendees result) \<longrightarrow> distinct xs)"
proof -
  from exec_success [OF ex] obtain r tf st en att att' where
    rf: "required_fields result = Inr (r, tf)" and
    att: "getitem (setdefault ''attendees'' (VList [])
                     (AList.update ''timeframe''
                        (VDict (AList.update ''end'' (VDatetime en)
                                  (AList.update ''start'' (VDatetime st) tf))) r))
                   ''attendees'' = Inr att" and
    add: "add_participants g att (s # ccs @ bccs) = Inr att'" and
    join: "joinable att'" and
    res: "res = VDict (setdefault ''location'' (VStr [])
                   (AList.update ''attendees'' att'
                      (setdefault ''attendees'' (VList [])
                         (AList.update ''timeframe''
                            (VDict (AList.update ''end'' (VDatetime en)
                                      (AList.update ''start'' (VDatetime st) tf))) r))))"
    by blast
  from at have att': "att' = VList xs"
    unfolding res by (simp add: attendees_of_def map_of_setdefault update_conv' split: pyval.splits)
  from add_participants_keeps_shape add att' obtain ys where ys: "att = VList ys" by blast
  from required_fields_Inr [OF rf] have result: "result = VDict r" by simp
  from att ys have sup: "supplied_attendees result = ys"
    unfolding result
    by (auto simp: supplied_attendees_def getitem_def map_of_setdefault update_conv'
        split: option.splits if_splits pyval.splits)
  from add_participants_list [of g ys "s # ccs @ bccs" att'] add ys
  obtain added where ad: "att' = VList (ys @ added)" "distinct added"
    "set added \<inter> set ys = {}"
    "\<forall>addr\<in>set (s # ccs @ bccs). \<exists>a. parse_addr g addr = Inr a \<and> VStr a \<in> set (ys @ added)"
    "\<forall>x\<in>set added. \<exists>addr\<in>set (s # ccs @ bccs). \<exists>a. parse_addr g addr = Inr a \<and> x = VStr a"
    by blast
  from ad(1) att' have xs: "xs = ys @ added" by simp
  from join att' have strs: "\<forall>x\<in>set xs. \<exists>a. x = VStr a"
    using joinable_list by blast
  have dist: "distinct ys \<longrightarrow> distinct xs"
    using xs ad(2,3) by auto
  from ad(4) xs have mem: "\<forall>addr\<in>set (s # ccs @ bccs). \<exists>a. parse_addr g addr = Inr a \<and> VStr a \<in> set xs"
    by simp
  from xs ad(2,3,5) sup have parts: "\<exists>added. xs = supplied_attendees result @ added \<and> distinct added \<and>
            set added \<inter> set (supplied_attendees result) = {} \<and>
            (\<forall>x\<in>set added. \<exists>addr\<in>set (s # ccs @ bccs). \<exists>a.
                parse_addr g addr = Inr a \<and> x = VStr a)"
    by blast
  from mem parts strs dist sup show ?thesis by blast
qed

lemma sample_extraction:
  "AvailabilityRangeExtractorNode_exec 0 sample_strptime sample_lib ''Boss@Example.com ''
     [''ann@example.com''] [''bob@example.com''] (extraction atts) =
   (case add_participants sample_lib (VList atts)
           [''Boss@Example.com '', ''ann@example.com'', ''bob@example.com''] of
      Inl err \<Rightarrow> Inl err
    | Inr att' \<Rightarrow>
        if \<not> joinable att' then Inl TypeError
        else
        Inr (VDict [(''duration'', VInt 30),
                    (''timeframe'', VDict [(''start'', VDatetime 600), (''end'', VDatetime 660)]),
                    (''attendees'', att'),
                    (''description'', VStr ''Weekly sync''),
                    (''reason'', VStr ''the email names Monday morning''),
                    (''location'', VStr [])]))"
  by (simp add: AvailabilityRangeExtractorNode_exec_def required_fields_def is_int_def
      to_datetime_def sample_strptime_def extraction_def setdefault_def getitem_def Let_def
      del: add_participants.simps split: sum.splits)

lemma sample_norm:
  "parse_addr sample_lib ''Boss@Example.com '' = Inr ''boss@example.com''"
  "parse_addr sample_lib ''ann@example.com'' = Inr ''ann@example.com''"
  "parse_addr sample_lib ''bob@example.com'' = Inr ''bob@example.com''"
  by (simp_all add: parse_addr_def sample_lib_def sample_lib_def bare_getaddresses_def strip_def lower_def lower_char_def upper_chars_def lower_chars_def upper_chars_def lower_chars_def
      is_space_def)

lemma sample_extraction_dup:
  "AvailabilityRangeExtractorNode_exec 0 sample_strptime sample_lib ''Boss@Example.com ''
     [''ann@example.com''] [''bob@example.com'']
     (extraction [VStr ''ann@example.com'', VStr ''ann@example.com'']) =
   Inr (VDict [(''duration'', VInt 30),
               (''timeframe'', VDict [(''start'', VDatetime 600), (''end'', VDatetime 660)]),
               (''attendees'', VList [VStr ''ann@example.com'', VStr ''ann@example.com'',
                                      VStr ''boss@example.com'', VStr ''bob@example.com'']),
               (''description'', VStr ''Weekly sync''),
               (''reason'', VStr ''the email names Monday morning''),
               (''location'', VStr [])])"
  by (simp add: sample_extraction sample_norm)

lemma sample_extraction_one:
  "AvailabilityRangeExtractorNode_exec 0 sample_strptime sample_lib ''Boss@Example.com ''
     [''ann@example.com''] [''bob@example.com''] (extraction [VStr ''ann@example.com'']) =
   Inr (VDict [(''duration'', VInt 30),
               (''timeframe'', VDict [(''start'', VDatetime 600), (''end'', VDatetime 660)]),
               (''attendees'', VList [VStr ''ann@example.com'',
                                      VStr ''boss@example.com'', VStr ''bob@example.com'']),
               (''description'', VStr ''Weekly sync''),
               (''reason'', VStr ''the email names Monday morning''),
               (''location'', VStr [])])"
  by (simp add: sample_extraction sample_norm)

text \<open>
  Claim C8 as stated fails: when the LLM answer lists an attendee twice, the execute
  stage succeeds and both entries stay in the resulting list.
\<close>

theorem extractor_keeps_duplicate_attendees:
  "\<not> isl (AvailabilityRangeExtractorNode_exec 0 sample_strptime sample_lib
            ''Boss@Example.com '' [''ann@example.com''] [''bob@example.com'']
            (extraction [VStr ''ann@example.com'', VStr ''ann@example.com''])) \<and>
   attendees_of (projr (AvailabilityRangeExtractorNode_exec 0 sample_strptime sample_lib
            ''Boss@Example.com '' [''ann@example.com''] [''bob@example.com'']
            (extraction [VStr ''ann@example.com'', VStr ''ann@example.com''])))
     = Some [VStr ''ann@example.com'', VStr ''ann@example.com'',
             VStr ''boss@example.com'', VStr ''bob@example.com''] \<and>
   \<not> distinct [VStr ''ann@example.com'', VStr ''ann@example.com'',
               VStr ''boss@example.com'', VStr ''bob@example.com'']"
  by (simp add: sample_extraction_dup attendees_of_def)

theorem extractor_adds_participants_witness:
  "supplied_attendees (extraction [VStr ''ann@example.com'']) = [VStr ''ann@example.com''] \<and>
   VStr ''boss@example.com'' \<in> set [VStr ''ann@example.com'', VStr ''boss@example.com'',
                                      VStr ''bob@example.com''] \<and>
   distinct [VStr ''ann@example.com'', VStr ''boss@example.com'', VStr ''bob@example.com'']"
proof -
  have at: "attendees_of (VDict [(''duration'', VInt 30),
               (''timeframe'', VDict [(''start'', VDatetime 600), (''end'', VDatetime 660)]),
               (''attendees'', VList [VStr ''ann@example.com'',
                                      VStr ''boss@example.com'', VStr ''bob@example.com'']),
               (''description'', VStr ''Weekly sync''),
               (''reason'', VStr ''the email names Monday morning''),
               (''location'', VStr [])])
        = Some [VStr ''ann@example.com'', VStr ''boss@example.com'', VStr ''bob@example.com'']"
    by (simp add: attendees_of_def)
  have sup: "supplied_attendees (extraction [VStr ''ann@example.com'']) = [VStr ''ann@example.com'']"
    by (simp add: supplied_attendees_def extraction_def)
  from extractor_adds_participants [OF sample_extraction_one at] sup sample_norm(1)
  show ?thesis by auto
qed

section \<open>Properties of the availability slots\<close>

lemma merge_busy_proper:
  "\<forall>b\<in>set bs. fst b < snd b \<Longrightarrow> \<forall>b\<in>set (merge_busy bs). fst b < snd b"
  by (induction bs rule: merge_busy.induct) (auto simp: less_max_iff_disj split: if_splits)

lemma subtract_busy_slots:
  "\<forall>b\<in>set bs. fst b < snd b \<Longrightarrow>
     sorted_wrt (\<lambda>a b. snd a \<le> fst b) (subtract_busy lo hi bs) \<and>
     (\<forall>x\<in>set (subtract_busy lo hi bs). lo \<le> fst x \<and> fst x < snd x \<and> snd x \<le> hi)"
proof (induction bs arbitrary: lo)
  case Nil
  then show ?case by simp
next
  case (Cons b bs)
  obtain s e where b: "b = (s, e)" by (cases b)
  from Cons.prems b have se: "s < e" and rest: "\<forall>b\<in>set bs. fst b < snd b" by auto
  note ih = Cons.IH [OF rest, of "max lo e"]
  show ?case
  proof (cases "lo < min s hi")
    case True
    have "\<forall>x\<in>set (subtract_busy (max lo e) hi bs). min s hi \<le> fst x"
      using ih se by fastforce
    with ih True show ?thesis unfolding b by fastforce
  next
    case False
    with ih show ?thesis unfolding b by fastforce
  qed
qed

lemma working_interval_in_day:
  "fst (working_interval wh ws we d) < snd (working_interval wh ws we d) \<Longrightarrow>
     d * minutes_per_day \<le> fst (working_interval wh ws we d) \<and>
     snd (working_interval wh ws we d) \<le> (d + 1) * minutes_per_day"
  by (simp add: working_interval_def Let_def le_max_iff_disj min_le_iff_disj)

lemma day_free_slots_props:
  assumes "\<forall>b\<in>set merged. fst b < snd b"
  shows "sorted_wrt (\<lambda>a b. snd a \<le> fst b) (day_free_slots merged ws we md wh d) \<and>
         (\<forall>x\<in>set (day_free_slots merged ws we md wh d).
            d * minutes_per_day \<le> fst x \<and> fst x < snd x \<and> snd x \<le> (d + 1) * minutes_per_day \<and>
            md \<le> snd x - fst x)"
proof -
  let ?w = "working_interval wh ws we d"
  note sb = subtract_busy_slots [OF assms, of "fst ?w" "snd ?w"]
  have srt: "sorted_wrt (\<lambda>a b. snd a \<le> fst b) (day_free_slots merged ws we md wh d)"
    unfolding day_free_slots_def Let_def using sb by (simp add: sorted_wrt_filter)
  have bnd: "\<forall>x\<in>set (day_free_slots merged ws we md wh d).
            d * minutes_per_day \<le> fst x \<and> fst x < snd x \<and> snd x \<le> (d + 1) * minutes_per_day \<and>
            md \<le> snd x - fst x"
  proof
    fix x assume "x \<in> set (day_free_slots merged ws we md wh d)"
    then have x: "x \<in> set (subtract_busy (fst ?w) (snd ?w) merged)" and md: "md \<le> snd x - fst x"
      by (simp_all add: day_free_slots_def Let_def)
    from sb x have in_w: "fst ?w \<le> fst x" "fst x < snd x" "snd x \<le> snd ?w" by auto
    then have "fst ?w < snd ?w" by linarith
    from working_interval_in_day [OF this] in_w md
    show "d * minutes_per_day \<le> fst x \<and> fst x < snd x \<and> snd x \<le> (d + 1) * minutes_per_day \<and>
            md \<le> snd x - fst x" by linarith
  qed
  from srt bnd show ?thesis ..
qed

lemma concat_days_sorted:
  assumes "sorted_wrt (<) ds"
    and "\<And>d. sorted_wrt (\<lambda>a b. snd a \<le> fst b) (f d)"
    and "\<And>d x. x \<in> set (f d) \<Longrightarrow> d * minutes_per_day \<le> fst x \<and> snd x \<le> (d + 1) * minutes_per_day"
  shows "sorted_wrt (\<lambda>a b. snd a \<le> fst b) (concat (map f ds))"
  using assms(1)
proof (induction ds)
  case Nil
  then show ?case by simp
next
  case (Cons d ds)
  have "\<forall>x\<in>set (f d). \<forall>y\<in>set (concat (map f ds)). snd x \<le> fst y"
  proof (intro ballI)
    fix x y assume x: "x \<in> set (f d)" and "y \<in> set (concat (map f ds))"
    then obtain d' where d': "d' \<in> set ds" "y \<in> set (f d')" by auto
    with Cons.prems have "d + 1 \<le> d'" by auto
    then have "(d + 1) * minutes_per_day \<le> d' * minutes_per_day"
      by (simp add: minutes_per_day_def)
    with assms(3) [OF x] assms(3) [OF d'(2)] show "snd x \<le> fst y" by linarith
  qed
  with Cons assms(2) show ?case by (simp add: sorted_wrt_append)
qed

lemma chain_well_formed:
  assumes "sorted_wrt (\<lambda>a b. snd a \<le> fst b) xs" and "\<forall>x\<in>set xs. fst x < snd x"
  shows "well_formed xs"
proof -
  have "sorted_wrt (\<lambda>a b. fst a \<le> fst b) xs"
    using assms by (induction xs) fastforce+
  then have s: "sorted (map fst xs)" by (simp add: sorted_map)
  have n: "non_overlapping xs" using assms(1) by (induction xs) auto
  from s n show ?thesis by (simp add: well_formed_def)
qed

text \<open>
  Claim C3. For every search window with start before end, every minimum duration,
  every pair of working hours and every list of busy intervals (each with start before
  end), \<^verbatim>\<open>check_availability\<close> returns a list of slots that is sorted ascending by
  start and pairwise non-overlapping, and every slot in it is non-empty and at least
  as long as the minimum duration. The list may be empty.
\<close>

theorem slot_resolver_well_formed:
  assumes window: "start_time < end_time"
    and busy: "\<forall>b\<in>set busy. fst b < snd b"
  shows "\<exists>slots. check_availability busy start_time end_time min_duration hours = Inr slots \<and>
           well_formed slots \<and>
           (\<forall>f\<in>set slots. fst f < snd f \<and> min_duration \<le> snd f - fst f)"
proof -
  let ?merged = "merge_busy (sort_key fst busy)"
  let ?f = "day_free_slots ?merged start_time end_time min_duration hours"
  let ?slots = "concat (map ?f (days_in_window start_time end_time))"
  have m: "\<forall>b\<in>set ?merged. fst b < snd b"
    using busy by (intro merge_busy_proper) simp
  note day = day_free_slots_props [OF m]
  have res: "check_availability busy start_time end_time min_duration hours = Inr ?slots"
    using window by (simp add: check_availability_def Let_def)
  have chain: "sorted_wrt (\<lambda>a b. snd a \<le> fst b) ?slots"
    using day by (intro concat_days_sorted) (auto simp: days_in_window_def)
  have each: "\<forall>x\<in>set ?slots. fst x < snd x \<and> min_duration \<le> snd x - fst x"
    using day by auto
  from chain each have "well_formed ?slots" by (intro chain_well_formed) auto
  with res each show ?thesis by blast
qed


lemma sample_slots:
  "check_availability [(600, 660), (630, 700), (2000, 2100)] 500 4000 30 (9, 17) =
     Inr [(540, 600), (700, 1020), (2100, 2460), (3420, 3900)]"
  by code_simp

lemma sample_fully_booked: "check_availability [(0, 5000)] 500 4000 30 (9, 17) = Inr []"
  by code_simp

theorem slot_resolver_well_formed_witness:
  "check_availability [(600, 660), (630, 700), (2000, 2100)] 500 4000 30 (9, 17) =
     Inr [(540, 600), (700, 1020), (2100, 2460), (3420, 3900)] \<and>
   well_formed [(540, 600), (700, 1020), (2100, 2460), (3420, 3900)] \<and>
   check_availability [(0, 5000)] 500 4000 30 (9, 17) = Inr [] \<and> well_formed []"
proof -
  have b: "\<forall>b\<in>set [(600, 660), (630, 700), (2000, 2100::int)]. fst b < snd b" by simp
  have b': "\<forall>b\<in>set [(0, 5000::int)]. fst b < snd b" by simp
  from slot_resolver_well_formed [of 500 4000 "[(600, 660), (630, 700), (2000, 2100)]" 30 "(9, 17)", OF _ b]
  have 1: "well_formed [(540, 600), (700, 1020), (2100, 2460), (3420, 3900)]"
    by (simp add: sample_slots)
  from slot_resolver_well_formed [of 500 4000 "[(0, 5000)]" 30 "(9, 17)", OF _ b']
  have 2: "well_formed []" by (simp add: sample_fully_booked)
  from 1 2 sample_slots sample_fully_booked show ?thesis by simp
qed

end
